theory Spec2Isabelle
  imports Complex_Main "HOL-Library.Sublist"
begin

section \<open>Data model of decision.py\<close>

text \<open>
  Numbers are Python numbers (ints and floats mixed through true division). They are
  modelled as exact reals: rounding, infinities and NaN are outside this model.

  An \<open>Option\<close> instance is an object: the class defines \<open>__hash__\<close> (the hash of the
  name) and no \<open>__eq__\<close>, so two instances compare equal exactly when they are the
  same object. The field \<open>ident\<close> is that object identity; \<open>name\<close> and \<open>params\<close> are the
  two attributes set by \<open>__init__\<close>.
\<close>

datatype error = ValueError | StatisticsError | ZeroDivisionError | KeyError

record Option =
  ident :: nat
  name :: string
  params :: "string \<rightharpoonup> real"

record Context =
  device :: real
  pressing_matters :: real

text \<open>\<open>d.get(key, default)\<close> on the attribute dictionary.\<close>

definition params_get :: "Option \<Rightarrow> string \<Rightarrow> real \<Rightarrow> real" where
  "params_get opt key dflt = (case params opt key of None \<Rightarrow> dflt | Some v \<Rightarrow> v)"

section \<open>Constraints\<close>

definition time_constraint :: "Option \<Rightarrow> bool" where
  "time_constraint opt = (params_get opt ''time_taken'' 0 \<le> 35)"

text \<open>The module-level list \<open>CONSTRAINTS\<close> as shipped.\<close>

definition CONSTRAINTS :: "(Option \<Rightarrow> bool) list" where
  "CONSTRAINTS = [time_constraint]"

text \<open>
  \<open>apply_constraints\<close> reads the module-level list when it is called; the list's value at
  the call is the first argument here.
\<close>

definition apply_constraints :: "(Option \<Rightarrow> bool) list \<Rightarrow> Option list \<Rightarrow> Option list" where
  "apply_constraints cs options = filter (\<lambda>opt. list_all (\<lambda>c. c opt) cs) options"

section \<open>Criteria\<close>

definition time_score :: "Option \<Rightarrow> real" where
  "time_score opt = - params_get opt ''time_taken'' 0"

definition social_score :: "Option \<Rightarrow> real" where
  "social_score opt = params_get opt ''social_value'' 0"

definition novelty_score :: "Option \<Rightarrow> real" where
  "novelty_score opt = params_get opt ''novelty_meter'' 0"

definition learn_score :: "Option \<Rightarrow> real" where
  "learn_score opt = params_get opt ''learn_index'' 0"

definition emotional_score :: "Option \<Rightarrow> real" where
  "emotional_score opt = params_get opt ''move_heart'' 0"

text \<open>The dictionary \<open>CRITERIA\<close>, in insertion order.\<close>

definition CRITERIA :: "(string \<times> (Option \<Rightarrow> real)) list" where
  "CRITERIA =
     [(''time_score'', time_score),
      (''social_score'', social_score),
      (''novelty_score'', novelty_score),
      (''learn_score'', learn_score),
      (''emotional_score'', emotional_score)]"

section \<open>Normalization\<close>

text \<open>
  The builtins \<open>min\<close> and \<open>max\<close> over a sequence: they raise \<open>ValueError\<close> on an empty
  one and otherwise scan from the left, keeping the first extremal element.
\<close>

fun py_min :: "real list \<Rightarrow> error + real" where
  "py_min [] = Inl ValueError"
| "py_min (x # xs) = Inr (fold (\<lambda>y best. if y < best then y else best) xs x)"

fun py_max :: "real list \<Rightarrow> error + real" where
  "py_max [] = Inl ValueError"
| "py_max (x # xs) = Inr (fold (\<lambda>y best. if y > best then y else best) xs x)"

definition normalize :: "real list \<Rightarrow> error + real list" where
  "normalize scores =
     (case py_min scores of
        Inl e \<Rightarrow> Inl e
      | Inr min_s \<Rightarrow>
          (case py_max scores of
             Inl e \<Rightarrow> Inl e
           | Inr max_s \<Rightarrow>
               if min_s = max_s then Inr (map (\<lambda>_. 0.5) scores)
               else Inr (map (\<lambda>s. (s - min_s) / (max_s - min_s)) scores)))"

text \<open>
  Dictionaries keep insertion order, so they are association lists: storing under a key
  that is present replaces the value in place and keeps the stored key object, storing
  under a new key appends. The criterion tables and the weights are keyed by strings.
\<close>

fun str_dict_set :: "(string \<times> 'v) list \<Rightarrow> string \<Rightarrow> 'v \<Rightarrow> (string \<times> 'v) list" where
  "str_dict_set [] k v = [(k, v)]"
| "str_dict_set ((k', v') # d) k v =
     (if k' = k then (k', v) # d else (k', v') # str_dict_set d k v)"

fun str_dict_getitem :: "(string \<times> 'v) list \<Rightarrow> string \<Rightarrow> error + 'v" where
  "str_dict_getitem [] k = Inl KeyError"
| "str_dict_getitem ((k', v') # d) k = (if k' = k then Inr v' else str_dict_getitem d k)"

fun str_dict_get :: "(string \<times> 'v) list \<Rightarrow> string \<Rightarrow> 'v \<Rightarrow> 'v" where
  "str_dict_get [] k dflt = dflt"
| "str_dict_get ((k', v') # d) k dflt = (if k' = k then v' else str_dict_get d k dflt)"

text \<open>
  A dictionary keyed by \<open>Option\<close> objects finds a key by its hash and then by identity
  or \<open>__eq__\<close>. \<open>Option\<close> has no \<open>__eq__\<close> of its own, and the same object has the same
  hash, so a stored key matches exactly when it is the same object.
\<close>

fun opt_dict_set :: "(Option \<times> 'v) list \<Rightarrow> Option \<Rightarrow> 'v \<Rightarrow> (Option \<times> 'v) list" where
  "opt_dict_set [] k v = [(k, v)]"
| "opt_dict_set ((k', v') # d) k v =
     (if ident k' = ident k then (k', v) # d else (k', v') # opt_dict_set d k v)"

fun opt_dict_getitem :: "(Option \<times> 'v) list \<Rightarrow> Option \<Rightarrow> error + 'v" where
  "opt_dict_getitem [] k = Inl KeyError"
| "opt_dict_getitem ((k', v') # d) k =
     (if ident k' = ident k then Inr v' else opt_dict_getitem d k)"

text \<open>The object identities of such a dictionary's keys, in the dictionary's order.\<close>

fun idents :: "(Option \<times> 'v) list \<Rightarrow> nat list" where
  "idents [] = []"
| "idents ((k, v) # d) = ident k # idents d"

text \<open>\<open>dict(zip(options, norm))\<close>: the pairs are stored from left to right.\<close>

definition dict_zip :: "Option list \<Rightarrow> 'v list \<Rightarrow> (Option \<times> 'v) list" where
  "dict_zip options norm' = fold (\<lambda>(k, v) d. opt_dict_set d k v) (zip options norm') []"

fun normalized_loop ::
  "(string \<times> (Option \<Rightarrow> real)) list \<Rightarrow> Option list \<Rightarrow>
   (string \<times> (Option \<times> real) list) list \<Rightarrow> error + (string \<times> (Option \<times> real) list) list" where
  "normalized_loop [] options normalized = Inr normalized"
| "normalized_loop ((crit_name, func) # rest) options normalized =
     (case normalize (map func options) of
        Inl e \<Rightarrow> Inl e
      | Inr norm' \<Rightarrow>
          normalized_loop rest options
            (str_dict_set normalized crit_name (dict_zip options norm')))"

definition compute_normalized_scores ::
  "Option list \<Rightarrow> error + (string \<times> (Option \<times> real) list) list" where
  "compute_normalized_scores options = normalized_loop CRITERIA options []"

section \<open>Context and weights\<close>

definition compute_weights :: "Context \<Rightarrow> (string \<times> real) list" where
  "compute_weights ctx =
     [(''time_score'', 1.0 + pressing_matters ctx),
      (''social_score'', 1.0),
      (''novelty_score'', 1.0),
      (''learn_score'', 1.0),
      (''emotional_score'', 1.0)]"

section \<open>Fulfilment simulation\<close>

text \<open>
  \<open>random.gauss(mu, sigma)\<close> draws from the generator that module \<open>random\<close> keeps for
  the whole process: every call reads that generator's state and advances it. The
  generator is library code; here it is a parameter \<open>gs\<close> that maps a state, \<open>mu\<close> and
  \<open>sigma\<close> to the sample and the next state, and the state is threaded through every
  function that draws.
\<close>

type_synonym 'g gauss = "'g \<Rightarrow> real \<Rightarrow> real \<Rightarrow> real \<times> 'g"

text \<open>\<open>[random.gauss(scaled, sigma) for _ in range(n)]\<close>\<close>

fun draws :: "'g gauss \<Rightarrow> real \<Rightarrow> real \<Rightarrow> nat \<Rightarrow> 'g \<Rightarrow> real list \<times> 'g" where
  "draws gs mu sigma 0 g = ([], g)"
| "draws gs mu sigma (Suc k) g =
     (case gs g mu sigma of
        (x, g') \<Rightarrow> (case draws gs mu sigma k g' of (xs, g'') \<Rightarrow> (x # xs, g'')))"

text \<open>\<open>range(n)\<close> is empty for a negative \<open>n\<close>.\<close>

definition simulate_fulfilment ::
  "'g gauss \<Rightarrow> Option \<Rightarrow> Context \<Rightarrow> int \<Rightarrow> 'g \<Rightarrow> real list \<times> 'g" where
  "simulate_fulfilment gs opt ctx n g =
     (let base = params_get opt ''fulfilment_value'' 0;
          scaled = base * (1 + 0.5 * pressing_matters ctx + 0.5 * device ctx);
          sigma = 0.5
      in draws gs scaled sigma (nat n) g)"

text \<open>
  \<open>statistics.mean\<close> and \<open>statistics.variance\<close> of the standard library: the arithmetic
  mean, which raises \<open>StatisticsError\<close> on no data, and the sample variance (squared
  deviations from the mean over \<open>n - 1\<close>), which raises it on fewer than two values.
\<close>

definition mean :: "real list \<Rightarrow> error + real" where
  "mean vals =
     (if vals = [] then Inl StatisticsError
      else Inr (sum_list vals / real (length vals)))"

definition variance :: "real list \<Rightarrow> error + real" where
  "variance vals =
     (if length vals < 2 then Inl StatisticsError
      else let mu = sum_list vals / real (length vals)
           in Inr (sum_list (map (\<lambda>x. (x - mu)\<^sup>2) vals) / real (length vals - 1)))"

definition expected_utility :: "real list \<Rightarrow> real \<Rightarrow> error + real" where
  "expected_utility vals risk_lambda =
     (case mean vals of
        Inl e \<Rightarrow> Inl e
      | Inr mu \<Rightarrow>
          (case (if length vals > 1 then variance vals else Inr 0) of
             Inl e \<Rightarrow> Inl e
           | Inr var \<Rightarrow> Inr (mu - risk_lambda * var)))"

section \<open>Combinational impact\<close>

text \<open>True division raises \<open>ZeroDivisionError\<close> on a zero divisor.\<close>

definition py_div :: "real \<Rightarrow> real \<Rightarrow> error + real" where
  "py_div a b = (if b = 0 then Inl ZeroDivisionError else Inr (a / b))"

definition combinational_impact :: "Option \<Rightarrow> error + real" where
  "combinational_impact opt =
     (let time = params_get opt ''time_taken'' 1;
          learn = params_get opt ''learn_index'' 0;
          novelty = params_get opt ''novelty_meter'' 0;
          fulfil = params_get opt ''fulfilment_value'' 0
      in case py_div learn time of
           Inl e \<Rightarrow> Inl e
         | Inr learn_impact \<Rightarrow>
             (case py_div novelty time of
                Inl e \<Rightarrow> Inl e
              | Inr novelty_impact \<Rightarrow>
                  (case py_div fulfil (max time 1) of
                     Inl e \<Rightarrow> Inl e
                   | Inr fulfil_impact \<Rightarrow>
                       Inr (learn_impact + novelty_impact + fulfil_impact))))"

section \<open>Aggregate scoring\<close>

text \<open>
  The inner loop of \<open>score\<close>:
  \<open>total += normalized_scores[crit][opt] * weights.get(crit, 1.0)\<close> for every key of
  \<open>CRITERIA\<close>.
\<close>

fun criteria_sum ::
  "string list \<Rightarrow> (string \<times> (Option \<times> real) list) list \<Rightarrow> (string \<times> real) list \<Rightarrow>
   Option \<Rightarrow> real \<Rightarrow> error + real" where
  "criteria_sum [] normalized_scores weights opt total' = Inr total'"
| "criteria_sum (crit # rest) normalized_scores weights opt total' =
     (case str_dict_getitem normalized_scores crit of
        Inl e \<Rightarrow> Inl e
      | Inr table \<Rightarrow>
          (case opt_dict_getitem table opt of
             Inl e \<Rightarrow> Inl e
           | Inr v \<Rightarrow>
               criteria_sum rest normalized_scores weights opt
                 (total' + v * str_dict_get weights crit 1.0)))"

text \<open>
  The outer loop of \<open>score\<close>, with the dictionary \<open>scores\<close> built so far and the
  generator's state. An exception ends the loop; the generator keeps the state it had
  reached. \<open>simulate_fulfilment\<close> is called with its default \<open>n = 100\<close> and
  \<open>expected_utility\<close> with its default \<open>risk_lambda = 0.01\<close>.
\<close>

fun score_loop ::
  "'g gauss \<Rightarrow> (string \<times> (Option \<times> real) list) list \<Rightarrow> (string \<times> real) list \<Rightarrow>
   Context \<Rightarrow> Option list \<Rightarrow> (Option \<times> real) list \<Rightarrow> 'g \<Rightarrow>
   (error + (Option \<times> real) list) \<times> 'g" where
  "score_loop gs normalized_scores weights ctx [] scores g = (Inr scores, g)"
| "score_loop gs normalized_scores weights ctx (opt # rest) scores g =
     (case criteria_sum (map fst CRITERIA) normalized_scores weights opt 0 of
        Inl e \<Rightarrow> (Inl e, g)
      | Inr total' \<Rightarrow>
          (case simulate_fulfilment gs opt ctx 100 g of
             (fulfil_values, g') \<Rightarrow>
               (case expected_utility fulfil_values 0.01 of
                  Inl e \<Rightarrow> (Inl e, g')
                | Inr eu \<Rightarrow>
                    (case combinational_impact opt of
                       Inl e \<Rightarrow> (Inl e, g')
                     | Inr ci \<Rightarrow>
                         score_loop gs normalized_scores weights ctx rest
                           (opt_dict_set scores opt (total' + eu + ci)) g'))))"

definition score ::
  "'g gauss \<Rightarrow> Option list \<Rightarrow> Context \<Rightarrow> 'g \<Rightarrow> (error + (Option \<times> real) list) \<times> 'g" where
  "score gs options ctx g =
     (case compute_normalized_scores options of
        Inl e \<Rightarrow> (Inl e, g)
      | Inr normalized_scores \<Rightarrow>
          score_loop gs normalized_scores (compute_weights ctx) ctx options [] g)"

section \<open>Explanation\<close>

text \<open>
  What \<open>explain\<close> prints, line by line; a score line carries the name and the number
  that the format \<open>.3f\<close> renders.
\<close>

datatype printed =
  ScoresHeader | ScoreLine string real | SelectedHeader | SelectedLine string real

text \<open>
  \<open>max(scores, key=scores.get)\<close>: \<open>ValueError\<close> on an empty dictionary; otherwise the
  first key, in insertion order, whose value no later value exceeds. The keys of a
  dictionary are distinct objects, so \<open>scores.get\<close> of a key is the value stored with it.
\<close>

fun max_by_get :: "(Option \<times> real) list \<Rightarrow> error + Option" where
  "max_by_get [] = Inl ValueError"
| "max_by_get ((k, v) # rest) =
     Inr (fst (fold (\<lambda>(k', v') (bk, bv). if v' > bv then (k', v') else (bk, bv)) rest (k, v)))"

definition explain :: "(Option \<times> real) list \<Rightarrow> printed list \<times> (error + unit)" where
  "explain scores =
     (let out = ScoresHeader # map (\<lambda>(opt, score_value). ScoreLine (name opt) score_value) scores
      in case max_by_get scores of
           Inl e \<Rightarrow> (out, Inl e)
         | Inr best \<Rightarrow>
             (case opt_dict_getitem scores best of
                Inl e \<Rightarrow> (out @ [SelectedHeader], Inl e)
              | Inr v \<Rightarrow> (out @ [SelectedHeader, SelectedLine (name best) v], Inr ())))"

section \<open>A generator to run the model with\<close>

text \<open>
  Any generator can stand for \<open>gs\<close>. To evaluate the functions that draw, this one keeps
  a counter as its state: the draw in state \<open>k\<close> is \<open>mu + sigma * k\<close>, and the state
  advances by one, as every generator's state advances with a draw.
\<close>

definition counter_gauss :: "nat gauss" where
  "counter_gauss k mu sigma = (mu + sigma * real k, Suc k)"

section \<open>Properties\<close>

subsection \<open>Minimum and maximum of a sequence\<close>

lemma fold_min_eq: "fold (\<lambda>y best. if y < best then y else best) xs (x::real) = Min (set (x # xs))"
proof (induction xs arbitrary: x)
  case Nil
  show ?case by simp
next
  case (Cons a xs)
  have "Min (set (x # a # xs)) = Min (set ((if a < x then a else x) # xs))"
  proof (cases "xs = []")
    case True
    then show ?thesis by (simp add: min_def)
  next
    case False
    then have "Min (insert x (insert a (set xs))) = min x (min a (Min (set xs)))"
      by simp
    moreover from False have "Min (insert (if a < x then a else x) (set xs)) = min (if a < x then a else x) (Min (set xs))"
      by simp
    ultimately show ?thesis by (simp add: min_def)
  qed
  with Cons.IH [of "if a < x then a else x"] show ?case by simp
qed

lemma fold_max_eq: "fold (\<lambda>y best. if y > best then y else best) xs (x::real) = Max (set (x # xs))"
proof (induction xs arbitrary: x)
  case Nil
  show ?case by simp
next
  case (Cons a xs)
  have "Max (set (x # a # xs)) = Max (set ((if a > x then a else x) # xs))"
  proof (cases "xs = []")
    case True
    then show ?thesis by (simp add: max_def)
  next
    case False
    then have "Max (insert x (insert a (set xs))) = max x (max a (Max (set xs)))"
      by simp
    moreover from False have "Max (insert (if a > x then a else x) (set xs)) = max (if a > x then a else x) (Max (set xs))"
      by simp
    ultimately show ?thesis by (simp add: max_def)
  qed
  with Cons.IH [of "if a > x then a else x"] show ?case by simp
qed

lemma py_min_eq: "scores \<noteq> [] \<Longrightarrow> py_min scores = Inr (Min (set scores))"
  by (cases scores) (simp_all add: fold_min_eq)

lemma py_max_eq: "scores \<noteq> [] \<Longrightarrow> py_max scores = Inr (Max (set scores))"
  by (cases scores) (simp_all add: fold_max_eq)

lemma normalize_nonempty:
  assumes "scores \<noteq> []"
  shows "normalize scores =
    Inr (if Min (set scores) = Max (set scores) then map (\<lambda>_. 1 / 2) scores
         else map (\<lambda>s. (s - Min (set scores)) / (Max (set scores) - Min (set scores))) scores)"
  using assms by (simp add: normalize_def py_min_eq py_max_eq)

lemma normalize_empty: "normalize [] = Inl ValueError"
  by (simp add: normalize_def)

subsection \<open>Normalization stays in the unit interval\<close>

text \<open>
  Claim C5. For every non-empty list of raw values, \<open>normalize\<close> returns a list of the
  same length whose entry for the value \<open>v\<close> is \<open>(v - min) / (max - min)\<close>, so every
  entry lies between 0 and 1; when the minimum equals the maximum, in particular when
  all raw values are equal, every entry is exactly one half.
\<close>

theorem normalize_unit_interval:
  assumes "scores \<noteq> []"
  shows "\<exists>out. normalize scores = Inr out \<and> length out = length scores \<and>
    (\<forall>i<length scores.
       out ! i = (if Min (set scores) = Max (set scores) then 1 / 2
                  else (scores ! i - Min (set scores)) / (Max (set scores) - Min (set scores))) \<and>
       0 \<le> out ! i \<and> out ! i \<le> 1) \<and>
    ((\<forall>v\<in>set scores. \<forall>w\<in>set scores. v = w) \<longrightarrow> (\<forall>y\<in>set out. y = 1 / 2))"
proof -
  let ?lo = "Min (set scores)" and ?hi = "Max (set scores)"
  let ?out = "if ?lo = ?hi then map (\<lambda>_. 1 / 2) scores
              else map (\<lambda>s. (s - ?lo) / (?hi - ?lo)) scores"
  have run: "normalize scores = Inr ?out"
    using assms by (rule normalize_nonempty)
  have len: "length ?out = length scores"
    by simp
  have bounds: "?lo \<le> s \<and> s \<le> ?hi" if "s \<in> set scores" for s
    using that by simp
  have lohi: "?lo \<le> ?hi"
    using assms by simp
  have each: "?out ! i = (if ?lo = ?hi then 1 / 2 else (scores ! i - ?lo) / (?hi - ?lo)) \<and>
      0 \<le> ?out ! i \<and> ?out ! i \<le> 1" if i: "i < length scores" for i
  proof (cases "?lo = ?hi")
    case True
    with i show ?thesis by simp
  next
    case False
    with lohi have pos: "0 < ?hi - ?lo" by simp
    from i have "scores ! i \<in> set scores" by simp
    then have b: "?lo \<le> scores ! i" "scores ! i \<le> ?hi"
      using bounds by blast+
    from False i have eq: "?out ! i = (scores ! i - ?lo) / (?hi - ?lo)" by simp
    from b pos have "0 \<le> (scores ! i - ?lo) / (?hi - ?lo)" by simp
    moreover from b pos have "(scores ! i - ?lo) / (?hi - ?lo) \<le> 1" by simp
    ultimately show ?thesis using eq False by simp
  qed
  have tie: "\<forall>y\<in>set ?out. y = 1 / 2" if all: "\<forall>v\<in>set scores. \<forall>w\<in>set scores. v = w"
  proof -
    from assms have "?lo \<in> set scores" "?hi \<in> set scores"
      by (simp_all add: Min_in Max_in)
    with all have "?lo = ?hi" by blast
    then show ?thesis by simp
  qed
  from run len each tie show ?thesis by blast
qed

text \<open>The theorem at the raw values 1, 2, 4, and the tie 3, 3.\<close>

theorem normalize_unit_interval_witness:
  "[1, 2, 4 :: real] \<noteq> [] \<and>
   (\<exists>out. normalize [1, 2, 4] = Inr out \<and> out ! 1 = 1 / 3 \<and> 0 \<le> out ! 1 \<and> out ! 1 \<le> 1) \<and>
   normalize [3, 3] = Inr [1 / 2, 1 / 2]"
proof -
  have ne: "[1, 2, 4 :: real] \<noteq> []" by simp
  from normalize_unit_interval [OF ne] obtain out where
    run: "normalize [1, 2, 4] = Inr out" and
    each: "\<forall>i<length [1, 2, 4 :: real].
       out ! i = (if Min (set [1, 2, 4 :: real]) = Max (set [1, 2, 4]) then 1 / 2
                  else ([1, 2, 4] ! i - Min (set [1, 2, 4])) / (Max (set [1, 2, 4]) - Min (set [1, 2, 4]))) \<and>
       0 \<le> out ! i \<and> out ! i \<le> 1"
    by blast
  from each have "out ! 1 = 1 / 3 \<and> 0 \<le> out ! 1 \<and> out ! 1 \<le> 1"
    by simp
  moreover have "normalize [3, 3] = Inr [1 / 2, 1 / 2]"
    by (simp add: normalize_def)
  ultimately show ?thesis using run ne by blast
qed

subsection \<open>Constraint filtering\<close>

lemma apply_constraints_all:
  "apply_constraints cs options = filter (\<lambda>opt. \<forall>c\<in>set cs. c opt) options"
  by (simp add: apply_constraints_def list_all_iff)

text \<open>
  Claim C6. For every input sequence, \<open>apply_constraints\<close> returns the options on which
  every configured predicate holds, in their input order: a subsequence of the input (so
  a subset by name too) whose members satisfy every predicate. With the shipped list
  \<open>CONSTRAINTS\<close> an option of the input is rejected exactly when its \<open>time_taken\<close>
  attribute, read as 0 when absent, exceeds 35.
\<close>

theorem apply_constraints_subsequence:
  "apply_constraints cs options = filter (\<lambda>opt. \<forall>c\<in>set cs. c opt) options \<and>
   subseq (apply_constraints cs options) options \<and>
   set (map name (apply_constraints cs options)) \<subseteq> set (map name options) \<and>
   (\<forall>opt\<in>set (apply_constraints cs options). \<forall>c\<in>set cs. c opt) \<and>
   (\<forall>opt\<in>set options.
      opt \<notin> set (apply_constraints CONSTRAINTS options) \<longleftrightarrow>
      (case params opt ''time_taken'' of None \<Rightarrow> 0 | Some t \<Rightarrow> t) > 35)"
proof -
  have f: "apply_constraints cs options = filter (\<lambda>opt. \<forall>c\<in>set cs. c opt) options"
    by (rule apply_constraints_all)
  have s: "subseq (apply_constraints cs options) options"
    by (simp add: f)
  have n: "set (map name (apply_constraints cs options)) \<subseteq> set (map name options)"
    by (auto simp: f)
  have p: "\<forall>opt\<in>set (apply_constraints cs options). \<forall>c\<in>set cs. c opt"
    by (auto simp: f)
  have d: "\<forall>opt\<in>set options.
      opt \<notin> set (apply_constraints CONSTRAINTS options) \<longleftrightarrow>
      (case params opt ''time_taken'' of None \<Rightarrow> 0 | Some t \<Rightarrow> t) > 35"
    by (auto simp: apply_constraints_all CONSTRAINTS_def time_constraint_def params_get_def)
  from f s n p d show ?thesis by blast
qed

text \<open>
  The theorem on three options: 40 exceeds the threshold, 35 does not, and an option
  without the attribute counts as 0.
\<close>

theorem apply_constraints_subsequence_witness:
  "map name (apply_constraints CONSTRAINTS
     [\<lparr>ident = 1, name = ''Hike'', params = [''time_taken'' \<mapsto> 40]\<rparr>,
      \<lparr>ident = 2, name = ''Walk'', params = [''time_taken'' \<mapsto> 35]\<rparr>,
      \<lparr>ident = 3, name = ''Nap'', params = Map.empty\<rparr>]) = [''Walk'', ''Nap'']"
proof -
  let ?xs = "[\<lparr>ident = 1, name = ''Hike'', params = [''time_taken'' \<mapsto> 40]\<rparr>,
      \<lparr>ident = 2, name = ''Walk'', params = [''time_taken'' \<mapsto> 35]\<rparr>,
      \<lparr>ident = 3, name = ''Nap'', params = Map.empty\<rparr>]"
  from apply_constraints_subsequence [of CONSTRAINTS ?xs]
  have "apply_constraints CONSTRAINTS ?xs = filter (\<lambda>opt. \<forall>c\<in>set CONSTRAINTS. c opt) ?xs"
    by blast
  then show ?thesis
    by (simp add: CONSTRAINTS_def time_constraint_def params_get_def)
qed

subsection \<open>Weights\<close>

text \<open>
  Claim C9. For every context, \<open>compute_weights\<close> gives the time criterion the weight
  \<open>1.0 + pressing_matters\<close> and each of the social, novelty, learning and emotional
  criteria the weight 1.0, and it has a weight for exactly the criteria of \<open>CRITERIA\<close>.
  So for \<open>pressing_matters = 2\<close> the time weight is 3, and for a non-negative
  \<open>pressing_matters\<close> every weight is non-negative.
\<close>

theorem compute_weights_policy:
  "str_dict_getitem (compute_weights ctx) ''time_score'' = Inr (1 + pressing_matters ctx) \<and>
   (\<forall>crit\<in>{''social_score'', ''novelty_score'', ''learn_score'', ''emotional_score''}.
      str_dict_getitem (compute_weights ctx) crit = Inr 1) \<and>
   map fst (compute_weights ctx) = map fst CRITERIA \<and>
   (pressing_matters ctx = 2 \<longrightarrow> str_dict_getitem (compute_weights ctx) ''time_score'' = Inr 3) \<and>
   (0 \<le> pressing_matters ctx \<longrightarrow> (\<forall>(crit, w)\<in>set (compute_weights ctx). 0 \<le> w))"
  by (simp add: compute_weights_def CRITERIA_def)

text \<open>The theorem at the context of the example run, device 1 and urgency 2.\<close>

theorem compute_weights_policy_witness:
  "str_dict_getitem (compute_weights \<lparr>device = 1, pressing_matters = 2\<rparr>) ''time_score'' = Inr 3 \<and>
   str_dict_getitem (compute_weights \<lparr>device = 1, pressing_matters = 2\<rparr>) ''learn_score'' = Inr 1 \<and>
   list_all (\<lambda>(crit, w). 0 \<le> w) (compute_weights \<lparr>device = 1, pressing_matters = 2\<rparr>)"
  using compute_weights_policy [of "\<lparr>device = 1, pressing_matters = 2\<rparr>"]
  by (simp add: list_all_iff)

subsection \<open>Combinational impact\<close>

lemma combinational_impact_zero:
  "params opt ''time_taken'' = Some 0 \<Longrightarrow> combinational_impact opt = Inl ZeroDivisionError"
  by (simp add: combinational_impact_def params_get_def py_div_def)

lemma combinational_impact_nonzero:
  assumes "params opt ''time_taken'' \<noteq> Some 0"
  shows "combinational_impact opt =
    Inr (params_get opt ''learn_index'' 0 / params_get opt ''time_taken'' 1 +
         params_get opt ''novelty_meter'' 0 / params_get opt ''time_taken'' 1 +
         params_get opt ''fulfilment_value'' 0 / max (params_get opt ''time_taken'' 1) 1)"
proof -
  from assms have t: "params_get opt ''time_taken'' 1 \<noteq> 0"
    by (auto simp: params_get_def split: option.splits)
  have m: "max (params_get opt ''time_taken'' 1) 1 \<noteq> 0"
    by (simp add: max_def)
  show ?thesis
    unfolding combinational_impact_def Let_def py_div_def using t m by simp
qed

text \<open>
  Claim C10. \<open>combinational_impact\<close> returns a value exactly when the option's
  \<open>time_taken\<close> attribute is absent or nonzero. When the key is present with the value
  0, the unguarded division \<open>learn / time\<close> raises \<open>ZeroDivisionError\<close>; the default 1
  applies only when the key is absent (the result is then the plain sum of the three
  attributes), and \<open>max(time, 1)\<close> keeps the divisor of the fulfilment term, and only
  that one, away from zero.
\<close>

theorem combinational_impact_total_iff:
  "((\<exists>v. combinational_impact opt = Inr v) \<longleftrightarrow> params opt ''time_taken'' \<noteq> Some 0) \<and>
   (params opt ''time_taken'' = Some 0 \<longrightarrow> combinational_impact opt = Inl ZeroDivisionError) \<and>
   (params opt ''time_taken'' = None \<longrightarrow>
      combinational_impact opt =
        Inr (params_get opt ''learn_index'' 0 + params_get opt ''novelty_meter'' 0 +
             params_get opt ''fulfilment_value'' 0)) \<and>
   (\<forall>e. py_div (params_get opt ''fulfilment_value'' 0) (max (params_get opt ''time_taken'' 1) 1) \<noteq> Inl e)"
proof -
  have a: "(\<exists>v. combinational_impact opt = Inr v) \<longleftrightarrow> params opt ''time_taken'' \<noteq> Some 0"
  proof (cases "params opt ''time_taken'' = Some 0")
    case True
    then show ?thesis by (simp add: combinational_impact_zero)
  next
    case False
    then show ?thesis by (simp add: combinational_impact_nonzero)
  qed
  have b: "params opt ''time_taken'' = Some 0 \<longrightarrow> combinational_impact opt = Inl ZeroDivisionError"
    by (simp add: combinational_impact_zero)
  have c: "params opt ''time_taken'' = None \<longrightarrow>
      combinational_impact opt =
        Inr (params_get opt ''learn_index'' 0 + params_get opt ''novelty_meter'' 0 +
             params_get opt ''fulfilment_value'' 0)"
  proof
    assume n: "params opt ''time_taken'' = None"
    then have "params_get opt ''time_taken'' 1 = 1" by (simp add: params_get_def)
    with combinational_impact_nonzero [of opt] n show "combinational_impact opt =
        Inr (params_get opt ''learn_index'' 0 + params_get opt ''novelty_meter'' 0 +
             params_get opt ''fulfilment_value'' 0)" by simp
  qed
  have d: "\<forall>e. py_div (params_get opt ''fulfilment_value'' 0) (max (params_get opt ''time_taken'' 1) 1) \<noteq> Inl e"
    by (simp add: py_div_def max_def)
  from a b c d show ?thesis by blast
qed

text \<open>The theorem on an option whose \<open>time_taken\<close> is 0 and on one without the key.\<close>

theorem combinational_impact_total_iff_witness:
  "combinational_impact
     \<lparr>ident = 1, name = ''Idle'', params = [''time_taken'' \<mapsto> 0, ''learn_index'' \<mapsto> 2]\<rparr>
     = Inl ZeroDivisionError \<and>
   combinational_impact
     \<lparr>ident = 2, name = ''Nap'', params = [''learn_index'' \<mapsto> 2, ''fulfilment_value'' \<mapsto> 4]\<rparr>
     = Inr 6"
  using combinational_impact_total_iff
      [of "\<lparr>ident = 1, name = ''Idle'', params = [''time_taken'' \<mapsto> 0, ''learn_index'' \<mapsto> 2]\<rparr>"]
    combinational_impact_total_iff
      [of "\<lparr>ident = 2, name = ''Nap'', params = [''learn_index'' \<mapsto> 2, ''fulfilment_value'' \<mapsto> 4]\<rparr>"]
  by (simp add: params_get_def)

text \<open>
  Claim C8 says that the formula is returned for every option. An option whose
  \<open>time_taken\<close> is present and 0 gets no value: the call raises.
\<close>

theorem combinational_impact_zero_time_counterexample:
  "combinational_impact
     \<lparr>ident = 1, name = ''Read book'',
      params = [''time_taken'' \<mapsto> 0, ''learn_index'' \<mapsto> 5, ''novelty_meter'' \<mapsto> 3,
                ''fulfilment_value'' \<mapsto> 6]\<rparr>
   = Inl ZeroDivisionError"
  by (simp add: combinational_impact_def params_get_def py_div_def)

text \<open>
  Claim C8, amended. For every option whose \<open>time_taken\<close> attribute is absent or
  nonzero, \<open>combinational_impact\<close> returns
  \<open>learn_index / time + novelty_meter / time + fulfilment_value / max(time, 1)\<close>, where
  \<open>time\<close> is the \<open>time_taken\<close> attribute, 1 when the key is absent, and the three other
  attributes count as 0 when absent. For \<open>time_taken = 5\<close>, \<open>learn_index = 5\<close>,
  \<open>novelty_meter = 3\<close> and \<open>fulfilment_value = 6\<close> the result is 2.8.
\<close>

theorem combinational_impact_formula:
  assumes "params opt ''time_taken'' \<noteq> Some 0"
  shows "combinational_impact opt =
      Inr ((case params opt ''learn_index'' of None \<Rightarrow> 0 | Some v \<Rightarrow> v) /
             (case params opt ''time_taken'' of None \<Rightarrow> 1 | Some t \<Rightarrow> t) +
           (case params opt ''novelty_meter'' of None \<Rightarrow> 0 | Some v \<Rightarrow> v) /
             (case params opt ''time_taken'' of None \<Rightarrow> 1 | Some t \<Rightarrow> t) +
           (case params opt ''fulfilment_value'' of None \<Rightarrow> 0 | Some v \<Rightarrow> v) /
             max (case params opt ''time_taken'' of None \<Rightarrow> 1 | Some t \<Rightarrow> t) 1) \<and>
    (params opt ''time_taken'' = Some 5 \<and> params opt ''learn_index'' = Some 5 \<and>
     params opt ''novelty_meter'' = Some 3 \<and> params opt ''fulfilment_value'' = Some 6 \<longrightarrow>
       combinational_impact opt = Inr 2.8)"
  using combinational_impact_nonzero [OF assms] by (simp add: params_get_def)

text \<open>The theorem on the option "Read book" of the example run.\<close>

theorem combinational_impact_formula_witness:
  "combinational_impact
     \<lparr>ident = 1, name = ''Read book'',
      params = [''time_taken'' \<mapsto> 5, ''social_value'' \<mapsto> 2, ''novelty_meter'' \<mapsto> 3,
                ''learn_index'' \<mapsto> 5, ''move_heart'' \<mapsto> 1, ''fulfilment_value'' \<mapsto> 6]\<rparr>
   = Inr 2.8"
  using combinational_impact_formula
      [of "\<lparr>ident = 1, name = ''Read book'',
      params = [''time_taken'' \<mapsto> 5, ''social_value'' \<mapsto> 2, ''novelty_meter'' \<mapsto> 3,
                ''learn_index'' \<mapsto> 5, ''move_heart'' \<mapsto> 1, ''fulfilment_value'' \<mapsto> 6]\<rparr>"]
  by simp

subsection \<open>Expected utility\<close>

text \<open>
  Claim C7 speaks of every sample sequence. On the empty one \<open>mean\<close> raises
  \<open>StatisticsError\<close>, and so does \<open>expected_utility\<close>.
\<close>

theorem expected_utility_empty_counterexample:
  "expected_utility [] 0.01 = Inl StatisticsError"
  by (simp add: expected_utility_def mean_def)

text \<open>
  Claim C7, amended. For every non-empty sample sequence and every risk coefficient,
  \<open>expected_utility\<close> returns the mean of the samples minus \<open>risk_lambda\<close> times their
  sample variance (the squared deviations from the mean over \<open>n - 1\<close>), the variance
  being 0 for a single sample. For the samples 5, 5, 5, 5 and \<open>risk_lambda = 0.01\<close> the
  result is 5; for the samples 4, 6 it is \<open>5 - 0.01 * 2 = 4.98\<close>.
\<close>

theorem expected_utility_mean_variance:
  assumes "vals \<noteq> []"
  shows "expected_utility vals risk_lambda =
      Inr (sum_list vals / real (length vals) -
           risk_lambda *
             (if length vals < 2 then 0
              else (\<Sum>x\<leftarrow>vals. (x - sum_list vals / real (length vals))\<^sup>2) / (real (length vals) - 1))) \<and>
    expected_utility [5, 5, 5, 5] 0.01 = Inr 5 \<and>
    expected_utility [4, 6] 0.01 = Inr 4.98"
proof -
  have g: "expected_utility vals risk_lambda =
      Inr (sum_list vals / real (length vals) -
           risk_lambda *
             (if length vals < 2 then 0
              else (\<Sum>x\<leftarrow>vals. (x - sum_list vals / real (length vals))\<^sup>2) / (real (length vals) - 1)))"
    using assms
    by (simp add: expected_utility_def mean_def variance_def Let_def of_nat_diff)
  have a: "expected_utility [5, 5, 5, 5] 0.01 = Inr 5"
    by (simp add: expected_utility_def mean_def variance_def Let_def)
  have b: "expected_utility [4, 6] 0.01 = Inr 4.98"
    by (simp add: expected_utility_def mean_def variance_def Let_def power2_eq_square)
  from g a b show ?thesis by blast
qed

text \<open>The theorem on a single sample, and on three samples with mean 3 and variance 7.\<close>

theorem expected_utility_mean_variance_witness:
  "expected_utility [7] 0.01 = Inr 7 \<and> expected_utility [1, 2, 6] 1 = Inr (- 4)"
  using expected_utility_mean_variance [of "[7]" "0.01"]
    expected_utility_mean_variance [of "[1, 2, 6]" 1]
  by (simp add: power2_eq_square)

subsection \<open>The empty candidate sequence\<close>

lemma normalize_length: "normalize xs = Inr ys \<Longrightarrow> length ys = length xs"
  by (cases "xs = []") (auto simp: normalize_empty normalize_nonempty split: if_splits)

lemma normalize_returns: "xs \<noteq> [] \<Longrightarrow> \<exists>ys. normalize xs = Inr ys \<and> length ys = length xs"
  by (simp add: normalize_nonempty)

lemma compute_normalized_scores_empty: "compute_normalized_scores [] = Inl ValueError"
  by (simp add: compute_normalized_scores_def CRITERIA_def normalize_empty)

lemma score_empty: "score gs [] ctx g = (Inl ValueError, g)"
  by (simp add: score_def compute_normalized_scores_empty)

subsection \<open>Dictionaries keyed by objects\<close>

lemma idents_map: "idents d = map ident (map fst d)"
  by (induction d rule: idents.induct) simp_all

lemma idents_append: "idents (d @ e) = idents d @ idents e"
  by (induction d rule: idents.induct) simp_all

lemma idents_zip: "length vs = length options \<Longrightarrow> idents (zip options vs) = map ident options"
  by (induction options vs rule: list_induct2') simp_all

lemma opt_dict_set_idents:
  "idents (opt_dict_set d k v) = (if ident k \<in> set (idents d) then idents d else idents d @ [ident k])"
  by (induction d k v rule: opt_dict_set.induct) auto

lemma opt_dict_set_keys:
  "ident k \<notin> set (idents d) \<Longrightarrow> map fst (opt_dict_set d k v) = map fst d @ [k]"
  by (induction d k v rule: opt_dict_set.induct) auto

lemma opt_dict_set_distinct:
  "distinct (idents d) \<Longrightarrow> distinct (idents (opt_dict_set d k v))"
  by (simp add: opt_dict_set_idents)

lemma opt_dict_getitem_found:
  "ident k \<in> set (idents d) \<Longrightarrow> \<exists>v. opt_dict_getitem d k = Inr v"
  by (induction d k rule: opt_dict_getitem.induct) auto

lemma fold_set_idents:
  "set (idents (fold (\<lambda>(k, v) d. opt_dict_set d k v) ps d)) = set (idents d) \<union> set (idents ps)"
proof (induction ps arbitrary: d)
  case Nil
  show ?case by simp
next
  case (Cons p ps)
  obtain k v where p: "p = (k, v)" by (cases p)
  have "set (idents (opt_dict_set d k v)) = insert (ident k) (set (idents d))"
    by (auto simp: opt_dict_set_idents)
  with Cons.IH [of "opt_dict_set d k v"] p show ?case by auto
qed

lemma fold_set_distinct:
  "distinct (idents d) \<Longrightarrow> distinct (idents (fold (\<lambda>(k, v) d. opt_dict_set d k v) ps d))"
proof (induction ps arbitrary: d)
  case Nil
  then show ?case by simp
next
  case (Cons p ps)
  obtain k v where p: "p = (k, v)" by (cases p)
  from Cons.prems have "distinct (idents (opt_dict_set d k v))"
    by (rule opt_dict_set_distinct)
  from Cons.IH [OF this] p show ?case by simp
qed

lemma fold_set_keys:
  "distinct (idents ps) \<Longrightarrow> set (idents ps) \<inter> set (idents d) = {} \<Longrightarrow>
   map fst (fold (\<lambda>(k, v) d. opt_dict_set d k v) ps d) = map fst d @ map fst ps"
proof (induction ps arbitrary: d)
  case Nil
  show ?case by simp
next
  case (Cons p ps)
  obtain k v where p: "p = (k, v)" by (cases p)
  from Cons.prems p have new: "ident k \<notin> set (idents d)" by auto
  from Cons.prems p have d1: "distinct (idents ps)" by simp
  from Cons.prems p have "ident k \<notin> set (idents ps)" by simp
  with Cons.prems p new have d2: "set (idents ps) \<inter> set (idents (opt_dict_set d k v)) = {}"
    by (auto simp: opt_dict_set_idents)
  from Cons.IH [OF d1 d2] new p show ?case
    by (simp add: opt_dict_set_keys)
qed

lemma dict_zip_set_idents:
  "length vs = length options \<Longrightarrow> set (idents (dict_zip options vs)) = ident ` set options"
  by (simp add: dict_zip_def fold_set_idents idents_zip)

lemma dict_zip_distinct: "distinct (idents (dict_zip options vs))"
  by (simp add: dict_zip_def fold_set_distinct)

lemma dict_zip_keys:
  assumes "distinct (map ident options)" "length vs = length options"
  shows "map fst (dict_zip options vs) = options"
proof -
  from assms have "distinct (idents (zip options vs))"
    by (simp add: idents_zip)
  from fold_set_keys [OF this, of "[]"]
  have "map fst (fold (\<lambda>(k, v) d. opt_dict_set d k v) (zip options vs) []) = map fst (zip options vs)"
    by simp
  with assms show ?thesis by (simp add: dict_zip_def)
qed

subsection \<open>The aggregate on a non-empty candidate sequence\<close>

lemma compute_normalized_scores_nonempty:
  assumes "options \<noteq> []"
  shows "\<exists>n1 n2 n3 n4 n5.
     compute_normalized_scores options =
       Inr [(''time_score'', dict_zip options n1), (''social_score'', dict_zip options n2),
            (''novelty_score'', dict_zip options n3), (''learn_score'', dict_zip options n4),
            (''emotional_score'', dict_zip options n5)] \<and>
     length n1 = length options \<and> length n2 = length options \<and> length n3 = length options \<and>
     length n4 = length options \<and> length n5 = length options"
proof -
  have ex: "\<exists>ys. normalize (map f options) = Inr ys \<and> length ys = length options" for f :: "Option \<Rightarrow> real"
    using normalize_returns [of "map f options"] assms by simp
  obtain n1 where n1: "normalize (map time_score options) = Inr n1" "length n1 = length options"
    using ex by blast
  obtain n2 where n2: "normalize (map social_score options) = Inr n2" "length n2 = length options"
    using ex by blast
  obtain n3 where n3: "normalize (map novelty_score options) = Inr n3" "length n3 = length options"
    using ex by blast
  obtain n4 where n4: "normalize (map learn_score options) = Inr n4" "length n4 = length options"
    using ex by blast
  obtain n5 where n5: "normalize (map emotional_score options) = Inr n5" "length n5 = length options"
    using ex by blast
  have "compute_normalized_scores options =
       Inr [(''time_score'', dict_zip options n1), (''social_score'', dict_zip options n2),
            (''novelty_score'', dict_zip options n3), (''learn_score'', dict_zip options n4),
            (''emotional_score'', dict_zip options n5)]"
    by (simp add: compute_normalized_scores_def CRITERIA_def n1 n2 n3 n4 n5)
  with n1 n2 n3 n4 n5 show ?thesis by blast
qed

lemma criteria_sum_returns:
  assumes len: "length n1 = length options" "length n2 = length options" "length n3 = length options"
      "length n4 = length options" "length n5 = length options"
    and opt: "ident opt \<in> ident ` set options"
  shows "\<exists>t. criteria_sum (map fst CRITERIA)
       [(''time_score'', dict_zip options n1), (''social_score'', dict_zip options n2),
        (''novelty_score'', dict_zip options n3), (''learn_score'', dict_zip options n4),
        (''emotional_score'', dict_zip options n5)] weights opt t0 = Inr t"
proof -
  have ex: "\<exists>v. opt_dict_getitem (dict_zip options vs) opt = Inr v"
    if "length vs = length options" for vs :: "real list"
    using that opt by (simp add: opt_dict_getitem_found dict_zip_set_idents)
  obtain v1 where v1: "opt_dict_getitem (dict_zip options n1) opt = Inr v1" using ex len(1) by blast
  obtain v2 where v2: "opt_dict_getitem (dict_zip options n2) opt = Inr v2" using ex len(2) by blast
  obtain v3 where v3: "opt_dict_getitem (dict_zip options n3) opt = Inr v3" using ex len(3) by blast
  obtain v4 where v4: "opt_dict_getitem (dict_zip options n4) opt = Inr v4" using ex len(4) by blast
  obtain v5 where v5: "opt_dict_getitem (dict_zip options n5) opt = Inr v5" using ex len(5) by blast
  show ?thesis
    by (simp add: CRITERIA_def v1 v2 v3 v4 v5)
qed

lemma draws_length: "draws gs mu sigma n g = (xs, g') \<Longrightarrow> length xs = n"
  by (induction n arbitrary: g xs g') (auto split: prod.splits)

lemma simulate_fulfilment_length:
  "simulate_fulfilment gs opt ctx n g = (xs, g') \<Longrightarrow> length xs = nat n"
  by (simp add: simulate_fulfilment_def Let_def draws_length)

lemma expected_utility_returns: "vals \<noteq> [] \<Longrightarrow> \<exists>u. expected_utility vals risk_lambda = Inr u"
  by (simp add: expected_utility_def mean_def variance_def Let_def)

lemma score_loop_returns:
  assumes len: "length n1 = length options" "length n2 = length options" "length n3 = length options"
      "length n4 = length options" "length n5 = length options"
    and tables: "tables =
       [(''time_score'', dict_zip options n1), (''social_score'', dict_zip options n2),
        (''novelty_score'', dict_zip options n3), (''learn_score'', dict_zip options n4),
        (''emotional_score'', dict_zip options n5)]"
  shows "ident ` set rest \<subseteq> ident ` set options \<Longrightarrow>
    \<forall>opt\<in>set rest. params opt ''time_taken'' \<noteq> Some 0 \<Longrightarrow>
    \<exists>scores' g'. score_loop gs tables weights ctx rest scores g = (Inr scores', g') \<and>
      set (idents scores') = set (idents scores) \<union> ident ` set rest \<and>
      (distinct (idents scores) \<longrightarrow> distinct (idents scores')) \<and>
      (distinct (map ident rest) \<and> ident ` set rest \<inter> set (idents scores) = {} \<longrightarrow>
         map fst scores' = map fst scores @ rest)"
proof (induction rest arbitrary: scores g)
  case Nil
  show ?case by simp
next
  case (Cons opt rest)
  from Cons.prems have "ident opt \<in> ident ` set options" by auto
  from criteria_sum_returns [OF len this, of weights 0]
  obtain t where t: "criteria_sum (map fst CRITERIA) tables weights opt 0 = Inr t"
    unfolding tables by blast
  obtain vals g1 where sim: "simulate_fulfilment gs opt ctx 100 g = (vals, g1)"
    by (cases "simulate_fulfilment gs opt ctx 100 g")
  then have "length vals = 100" by (auto dest: simulate_fulfilment_length)
  then have "vals \<noteq> []" by auto
  then obtain eu where eu: "expected_utility vals (1 / 100) = Inr eu"
    using expected_utility_returns by blast
  from Cons.prems have "params opt ''time_taken'' \<noteq> Some 0" by simp
  then obtain ci where ci: "combinational_impact opt = Inr ci"
    by (simp add: combinational_impact_nonzero)
  let ?s = "opt_dict_set scores opt (t + eu + ci)"
  have step: "score_loop gs tables weights ctx (opt # rest) scores g =
      score_loop gs tables weights ctx rest ?s g1"
    by (simp add: t sim eu ci)
  from Cons.prems have p1: "ident ` set rest \<subseteq> ident ` set options" by auto
  from Cons.prems have p2: "\<forall>opt\<in>set rest. params opt ''time_taken'' \<noteq> Some 0" by simp
  from Cons.IH [OF p1 p2, of ?s g1]
  obtain scores' g' where
    run: "score_loop gs tables weights ctx rest ?s g1 = (Inr scores', g')" and
    ids: "set (idents scores') = set (idents ?s) \<union> ident ` set rest" and
    dis: "distinct (idents ?s) \<longrightarrow> distinct (idents scores')" and
    keys: "distinct (map ident rest) \<and> ident ` set rest \<inter> set (idents ?s) = {} \<longrightarrow>
         map fst scores' = map fst ?s @ rest"
    by blast
  have s_ids: "set (idents ?s) = insert (ident opt) (set (idents scores))"
    by (auto simp: opt_dict_set_idents)
  have a: "set (idents scores') = set (idents scores) \<union> ident ` set (opt # rest)"
    using ids s_ids by auto
  have b: "distinct (idents scores) \<longrightarrow> distinct (idents scores')"
    using dis by (simp add: opt_dict_set_distinct)
  have c: "distinct (map ident (opt # rest)) \<and> ident ` set (opt # rest) \<inter> set (idents scores) = {} \<longrightarrow>
         map fst scores' = map fst scores @ opt # rest"
  proof
    assume h: "distinct (map ident (opt # rest)) \<and> ident ` set (opt # rest) \<inter> set (idents scores) = {}"
    then have new: "ident opt \<notin> set (idents scores)" by auto
    from h have "distinct (map ident rest) \<and> ident ` set rest \<inter> set (idents ?s) = {}"
      by (auto simp: s_ids)
    with keys have "map fst scores' = map fst ?s @ rest" by blast
    with new show "map fst scores' = map fst scores @ opt # rest"
      by (simp add: opt_dict_set_keys)
  qed
  from step run a b c show ?case by auto
qed

lemma score_returns:
  assumes "options \<noteq> []" "\<forall>opt\<in>set options. params opt ''time_taken'' \<noteq> Some 0"
  shows "\<exists>scores g'. score gs options ctx g = (Inr scores, g') \<and>
      set (idents scores) = ident ` set options \<and> distinct (idents scores) \<and>
      (distinct (map ident options) \<longrightarrow> map fst scores = options)"
proof -
  from compute_normalized_scores_nonempty [OF assms(1)]
  obtain n1 n2 n3 n4 n5 where
    tabs: "compute_normalized_scores options =
       Inr [(''time_score'', dict_zip options n1), (''social_score'', dict_zip options n2),
            (''novelty_score'', dict_zip options n3), (''learn_score'', dict_zip options n4),
            (''emotional_score'', dict_zip options n5)]" and
    len: "length n1 = length options" "length n2 = length options" "length n3 = length options"
      "length n4 = length options" "length n5 = length options"
    by blast
  have sub: "ident ` set options \<subseteq> ident ` set options" by simp
  from score_loop_returns [OF len refl sub assms(2), of gs "compute_weights ctx" ctx "[]" g]
  obtain scores' g' where
    run: "score_loop gs [(''time_score'', dict_zip options n1), (''social_score'', dict_zip options n2),
            (''novelty_score'', dict_zip options n3), (''learn_score'', dict_zip options n4),
            (''emotional_score'', dict_zip options n5)] (compute_weights ctx) ctx options [] g = (Inr scores', g')" and
    ids: "set (idents scores') = set (idents ([] :: (Option \<times> real) list)) \<union> ident ` set options" and
    dis: "distinct (idents ([] :: (Option \<times> real) list)) \<longrightarrow> distinct (idents scores')" and
    keys: "distinct (map ident options) \<and> ident ` set options \<inter> set (idents ([] :: (Option \<times> real) list)) = {} \<longrightarrow>
         map fst scores' = map fst ([] :: (Option \<times> real) list) @ options"
    by blast
  have "score gs options ctx g = (Inr scores', g')"
    by (simp add: score_def tabs run)
  with ids dis keys show ?thesis by simp
qed

subsection \<open>Scoring no candidates\<close>

text \<open>
  Claim C1 says that \<open>score\<close> on an empty candidate sequence returns an empty mapping.
  It does not: the run, here at the context of the example and a fresh generator, ends
  in an exception.
\<close>

theorem score_empty_counterexample:
  "fst (score counter_gauss [] \<lparr>device = 1, pressing_matters = 2\<rparr> 0) \<noteq> Inr []"
  by (simp add: score_empty)

text \<open>
  Claim C1, amended. Invoked with an empty candidate sequence, \<open>score\<close> returns no
  mapping: it raises \<open>ValueError\<close>. The exception comes from \<open>min\<close> over the empty list
  of raw values in \<open>normalize\<close>, reached through \<open>compute_normalized_scores\<close> for the
  first criterion, before any sample is drawn (the generator keeps its state).
\<close>

theorem score_empty_raises:
  "score gs [] ctx g = (Inl ValueError, g) \<and>
   compute_normalized_scores [] = Inl ValueError \<and>
   normalize [] = Inl ValueError"
  by (simp add: score_empty compute_normalized_scores_empty normalize_empty)

subsection \<open>Which options are the same key\<close>

text \<open>
  Claim C3 says that two options sharing a name are one candidate in every container
  keyed by option. Two distinct objects, both named "Walk", taking 3 and 8 units of
  time: the table of the time criterion holds both, with the normalized values 1 and 0,
  and the aggregate score mapping has two entries named "Walk".
\<close>

theorem same_name_two_keys_counterexample:
  "(case compute_normalized_scores
       [\<lparr>ident = 1, name = ''Walk'', params = [''time_taken'' \<mapsto> 3]\<rparr>,
        \<lparr>ident = 2, name = ''Walk'', params = [''time_taken'' \<mapsto> 8]\<rparr>] of
      Inl e \<Rightarrow> []
    | Inr tables \<Rightarrow>
        (case str_dict_getitem tables ''time_score'' of
           Inl e \<Rightarrow> []
         | Inr t \<Rightarrow> map (\<lambda>(k, v). (name k, v)) t))
     = [(''Walk'', 1), (''Walk'', 0)] \<and>
   (case fst (score counter_gauss
       [\<lparr>ident = 1, name = ''Walk'', params = [''time_taken'' \<mapsto> 3]\<rparr>,
        \<lparr>ident = 2, name = ''Walk'', params = [''time_taken'' \<mapsto> 8]\<rparr>]
       \<lparr>device = 1, pressing_matters = 2\<rparr> 0) of
      Inl e \<Rightarrow> []
    | Inr scores \<Rightarrow> map (\<lambda>(k, v). name k) scores)
     = [''Walk'', ''Walk'']"
proof -
  define a where "a = \<lparr>ident = 1, name = ''Walk'', params = [''time_taken'' \<mapsto> 3]\<rparr>"
  define b where "b = \<lparr>ident = 2, name = ''Walk'', params = [''time_taken'' \<mapsto> 8]\<rparr>"
  define ctx where "ctx = \<lparr>device = 1, pressing_matters = 2\<rparr>"
  have tab: "(case compute_normalized_scores [a, b] of
      Inl e \<Rightarrow> []
    | Inr tables \<Rightarrow>
        (case str_dict_getitem tables ''time_score'' of
           Inl e \<Rightarrow> []
         | Inr t \<Rightarrow> map (\<lambda>(k, v). (name k, v)) t))
     = [(''Walk'', 1), (''Walk'', 0)]"
    by (simp add: compute_normalized_scores_def CRITERIA_def normalize_def dict_zip_def
        time_score_def params_get_def a_def b_def)
  have ne: "[a, b] \<noteq> []" by simp
  have nz: "\<forall>opt\<in>set [a, b]. params opt ''time_taken'' \<noteq> Some 0"
    by (simp add: a_def b_def)
  have di: "distinct (map ident [a, b])"
    by (simp add: a_def b_def)
  from score_returns [OF ne nz, of counter_gauss ctx 0]
  obtain scores g' where
    run: "score counter_gauss [a, b] ctx 0 = (Inr scores, g')" and
    keys: "distinct (map ident [a, b]) \<longrightarrow> map fst scores = [a, b]"
    by (elim exE conjE)
  from keys di have k: "map fst scores = [a, b]" by (rule mp)
  have "map (\<lambda>(k, v). name k) scores = map name (map fst scores)"
    by (simp add: case_prod_beta)
  with k have "map (\<lambda>(k, v). name k) scores = [''Walk'', ''Walk'']"
    by (simp add: a_def b_def)
  with run have "(case fst (score counter_gauss [a, b] ctx 0) of
      Inl e \<Rightarrow> []
    | Inr scores \<Rightarrow> map (\<lambda>(k, v). name k) scores) = [''Walk'', ''Walk'']"
    by simp
  with tab show ?thesis
    unfolding a_def b_def ctx_def by (rule conjI)
qed

text \<open>
  Claim C3, amended. The containers keyed by option are keyed by object identity, not
  by name: \<open>Option\<close> defines \<open>__hash__\<close> from the name and no \<open>__eq__\<close>. Whenever \<open>score\<close>
  runs on a non-empty candidate sequence without a zero \<open>time_taken\<close>, each table of
  normalized scores (one per criterion of \<open>CRITERIA\<close>) and the aggregate score mapping
  hold exactly one entry per distinct object of the sequence; when the objects of the
  sequence are pairwise distinct, whatever their names, the keys are the sequence
  itself, in its order.
\<close>

theorem score_keyed_by_identity:
  assumes "options \<noteq> []" and "\<forall>opt\<in>set options. params opt ''time_taken'' \<noteq> Some 0"
  shows "\<exists>tables scores g'.
     compute_normalized_scores options = Inr tables \<and>
     score gs options ctx g = (Inr scores, g') \<and>
     map fst tables = map fst CRITERIA \<and>
     (\<forall>(crit, t)\<in>set tables.
        distinct (idents t) \<and> set (idents t) = ident ` set options \<and>
        (distinct (map ident options) \<longrightarrow> map fst t = options)) \<and>
     distinct (idents scores) \<and> set (idents scores) = ident ` set options \<and>
     (distinct (map ident options) \<longrightarrow> map fst scores = options)"
proof -
  from compute_normalized_scores_nonempty [OF assms(1)]
  obtain n1 n2 n3 n4 n5 where
    tabs: "compute_normalized_scores options =
       Inr [(''time_score'', dict_zip options n1), (''social_score'', dict_zip options n2),
            (''novelty_score'', dict_zip options n3), (''learn_score'', dict_zip options n4),
            (''emotional_score'', dict_zip options n5)]" and
    len: "length n1 = length options" "length n2 = length options" "length n3 = length options"
      "length n4 = length options" "length n5 = length options"
    by blast
  let ?tables = "[(''time_score'', dict_zip options n1), (''social_score'', dict_zip options n2),
            (''novelty_score'', dict_zip options n3), (''learn_score'', dict_zip options n4),
            (''emotional_score'', dict_zip options n5)]"
  have one: "distinct (idents (dict_zip options vs)) \<and>
      set (idents (dict_zip options vs)) = ident ` set options \<and>
      (distinct (map ident options) \<longrightarrow> map fst (dict_zip options vs) = options)"
    if "length vs = length options" for vs :: "real list"
    using that by (simp add: dict_zip_distinct dict_zip_set_idents dict_zip_keys)
  have all: "\<forall>(crit, t)\<in>set ?tables.
        distinct (idents t) \<and> set (idents t) = ident ` set options \<and>
        (distinct (map ident options) \<longrightarrow> map fst t = options)"
    using one [OF len(1)] one [OF len(2)] one [OF len(3)] one [OF len(4)] one [OF len(5)]
    by simp
  have names: "map fst ?tables = map fst CRITERIA"
    by (simp add: CRITERIA_def)
  from score_returns [OF assms, of gs ctx g]
  obtain scores g' where "score gs options ctx g = (Inr scores, g')"
    "set (idents scores) = ident ` set options" "distinct (idents scores)"
    "distinct (map ident options) \<longrightarrow> map fst scores = options"
    by blast
  with tabs all names show ?thesis by blast
qed

text \<open>The theorem on two distinct objects with the same name and the same attributes.\<close>

theorem score_keyed_by_identity_witness:
  "(case fst (score counter_gauss
       [\<lparr>ident = 4, name = ''Read book'', params = [''time_taken'' \<mapsto> 5, ''learn_index'' \<mapsto> 5]\<rparr>,
        \<lparr>ident = 7, name = ''Read book'', params = [''time_taken'' \<mapsto> 5, ''learn_index'' \<mapsto> 5]\<rparr>]
       \<lparr>device = 0, pressing_matters = 0\<rparr> 0) of
      Inl e \<Rightarrow> []
    | Inr scores \<Rightarrow> map (\<lambda>(k, v). (ident k, name k)) scores)
     = [(4, ''Read book''), (7, ''Read book'')]"
proof -
  define a where "a = \<lparr>ident = 4, name = ''Read book'', params = [''time_taken'' \<mapsto> 5, ''learn_index'' \<mapsto> 5]\<rparr>"
  define b where "b = \<lparr>ident = 7, name = ''Read book'', params = [''time_taken'' \<mapsto> 5, ''learn_index'' \<mapsto> 5]\<rparr>"
  define ctx where "ctx = \<lparr>device = 0, pressing_matters = 0\<rparr>"
  have ne: "[a, b] \<noteq> []" by simp
  have nz: "\<forall>opt\<in>set [a, b]. params opt ''time_taken'' \<noteq> Some 0"
    by (simp add: a_def b_def)
  have di: "distinct (map ident [a, b])"
    by (simp add: a_def b_def)
  from score_keyed_by_identity [OF ne nz, of counter_gauss ctx 0]
  obtain scores g' where
    run: "score counter_gauss [a, b] ctx 0 = (Inr scores, g')" and
    keys: "distinct (map ident [a, b]) \<longrightarrow> map fst scores = [a, b]"
    by (elim exE conjE)
  from keys di have k: "map fst scores = [a, b]" by (rule mp)
  have "map (\<lambda>(k, v). (ident k, name k)) scores = map (\<lambda>k. (ident k, name k)) (map fst scores)"
    by (simp add: case_prod_beta)
  with k have "map (\<lambda>(k, v). (ident k, name k)) scores = [(4, ''Read book''), (7, ''Read book'')]"
    by (simp add: a_def b_def)
  with run have "(case fst (score counter_gauss [a, b] ctx 0) of
      Inl e \<Rightarrow> []
    | Inr scores \<Rightarrow> map (\<lambda>(k, v). (ident k, name k)) scores)
     = [(4, ''Read book''), (7, ''Read book'')]"
    by simp
  then show ?thesis
    unfolding a_def b_def ctx_def .
qed

subsection \<open>Selecting from an empty mapping\<close>

lemma fold_max_in:
  "fold (\<lambda>(k', v') (bk, bv). if v' > bv then (k', v') else (bk, bv)) rest (p :: Option \<times> real)
     \<in> set (p # rest)"
proof (induction rest arbitrary: p)
  case Nil
  show ?case by simp
next
  case (Cons q rest)
  obtain k v where p: "p = (k, v)" by (cases p)
  obtain k' v' where q: "q = (k', v')" by (cases q)
  from Cons.IH [of "if v' > v then (k', v') else (k, v)"] p q show ?case
    by (auto split: if_splits)
qed

lemma max_by_get_returns:
  assumes "scores \<noteq> []"
  shows "\<exists>best. max_by_get scores = Inr best \<and> ident best \<in> set (idents scores)"
proof -
  from assms obtain k v rest where s: "scores = (k, v) # rest"
    by (cases scores) auto
  let ?m = "fold (\<lambda>(k', v') (bk, bv). if v' > bv then (k', v') else (bk, bv)) rest (k, v)"
  have "?m \<in> set scores" unfolding s by (rule fold_max_in)
  then have "ident (fst ?m) \<in> set (idents scores)"
    by (auto simp: idents_map)
  with s show ?thesis by simp
qed

text \<open>
  Claim C2 says that on an empty score mapping the selection signals an explicit "no
  feasible option" outcome instead of raising. \<open>explain\<close> raises.
\<close>

theorem explain_empty_counterexample: "snd (explain []) = Inl ValueError"
  by (simp add: explain_def)

text \<open>
  Claim C2, amended. When the aggregate score mapping is empty, \<open>explain\<close> prints the
  header line and then raises \<open>ValueError\<close>, from \<open>max\<close> over the empty mapping; there
  is no "no feasible option" outcome. It raises on the empty mapping only: on every
  other mapping it runs to its end.
\<close>

theorem explain_raises_iff_empty:
  "explain [] = ([ScoresHeader], Inl ValueError) \<and>
   snd (explain scores) = (if scores = [] then Inl ValueError else Inr ())"
proof -
  have e: "explain [] = ([ScoresHeader], Inl ValueError)"
    by (simp add: explain_def)
  have n: "snd (explain scores) = Inr ()" if "scores \<noteq> []"
  proof -
    from max_by_get_returns [OF that] obtain best where
      b: "max_by_get scores = Inr best" "ident best \<in> set (idents scores)" by blast
    from opt_dict_getitem_found [OF b(2)] obtain v where "opt_dict_getitem scores best = Inr v"
      by blast
    with b show ?thesis by (simp add: explain_def)
  qed
  from e n show ?thesis by simp
qed

subsection \<open>Where the fulfilment samples come from\<close>

lemma draws_succession:
  "length (fst (draws gs mu sigma n g)) = n \<and>
   (\<forall>k<n. fst (draws gs mu sigma n g) ! k = fst (gs (((\<lambda>s. snd (gs s mu sigma)) ^^ k) g) mu sigma)) \<and>
   snd (draws gs mu sigma n g) = ((\<lambda>s. snd (gs s mu sigma)) ^^ n) g"
proof (induction n arbitrary: g)
  case 0
  show ?case by simp
next
  case (Suc n)
  obtain x g1 where step: "gs g mu sigma = (x, g1)" by (cases "gs g mu sigma")
  obtain xs g2 where rest: "draws gs mu sigma n g1 = (xs, g2)" by (cases "draws gs mu sigma n g1")
  from Suc.IH [of g1] rest have
    len: "length xs = n" and
    nth: "\<forall>k<n. xs ! k = fst (gs (((\<lambda>s. snd (gs s mu sigma)) ^^ k) g1) mu sigma)" and
    fin: "g2 = ((\<lambda>s. snd (gs s mu sigma)) ^^ n) g1"
    by simp_all
  have g1: "g1 = snd (gs g mu sigma)" using step by simp
  have sw: "((\<lambda>s. snd (gs s mu sigma)) ^^ j) (snd (gs g mu sigma)) =
      snd (gs (((\<lambda>s. snd (gs s mu sigma)) ^^ j) g) mu sigma)" for j
    using funpow_swap1 [of "\<lambda>s. snd (gs s mu sigma)" j g] by simp
  have d: "draws gs mu sigma (Suc n) g = (x # xs, g2)"
    by (simp add: step rest)
  have a: "length (fst (draws gs mu sigma (Suc n) g)) = Suc n"
    unfolding d by (simp add: len)
  have b: "\<forall>k<Suc n. fst (draws gs mu sigma (Suc n) g) ! k =
      fst (gs (((\<lambda>s. snd (gs s mu sigma)) ^^ k) g) mu sigma)"
  proof (intro allI impI)
    fix k assume k: "k < Suc n"
    show "fst (draws gs mu sigma (Suc n) g) ! k =
      fst (gs (((\<lambda>s. snd (gs s mu sigma)) ^^ k) g) mu sigma)"
    proof (cases k)
      case 0
      then show ?thesis unfolding d by (simp add: step)
    next
      case (Suc j)
      with k have "j < n" by simp
      with nth have "xs ! j = fst (gs (((\<lambda>s. snd (gs s mu sigma)) ^^ j) g1) mu sigma)" by simp
      with Suc show ?thesis unfolding d by (simp add: g1 sw)
    qed
  qed
  have c: "snd (draws gs mu sigma (Suc n) g) = ((\<lambda>s. snd (gs s mu sigma)) ^^ Suc n) g"
    unfolding d by (simp add: fin g1 sw)
  from a b c show ?case by blast
qed

text \<open>
  \<open>simulate_fulfilment\<close> returns \<open>n\<close> samples (none for a negative \<open>n\<close>): the
  successive draws \<open>gauss(scaled, 0.5)\<close> from the state the generator has at the call,
  with \<open>scaled = fulfilment_value * (1 + 0.5 * pressing_matters + 0.5 * device)\<close>, and
  it leaves the generator in the state after these draws.
\<close>

lemma simulate_fulfilment_draws:
  "length (fst (simulate_fulfilment gs opt ctx n g)) = nat n \<and>
   (\<forall>k<nat n.
      fst (simulate_fulfilment gs opt ctx n g) ! k =
        fst (gs (((\<lambda>s. snd (gs s
                ((case params opt ''fulfilment_value'' of None \<Rightarrow> 0 | Some b \<Rightarrow> b) *
                 (1 + pressing_matters ctx / 2 + device ctx / 2)) (1 / 2))) ^^ k) g)
              ((case params opt ''fulfilment_value'' of None \<Rightarrow> 0 | Some b \<Rightarrow> b) *
               (1 + pressing_matters ctx / 2 + device ctx / 2)) (1 / 2))) \<and>
   snd (simulate_fulfilment gs opt ctx n g) =
     ((\<lambda>s. snd (gs s
          ((case params opt ''fulfilment_value'' of None \<Rightarrow> 0 | Some b \<Rightarrow> b) *
           (1 + pressing_matters ctx / 2 + device ctx / 2)) (1 / 2))) ^^ nat n) g"
proof -
  let ?mu = "(case params opt ''fulfilment_value'' of None \<Rightarrow> 0 | Some b \<Rightarrow> b) *
             (1 + pressing_matters ctx / 2 + device ctx / 2)"
  have "simulate_fulfilment gs opt ctx n g = draws gs ?mu (1 / 2) (nat n) g"
    by (simp add: simulate_fulfilment_def params_get_def)
  with draws_succession [of gs ?mu "1 / 2" "nat n" g] show ?thesis by simp
qed

end
